theory Spec2Isabelle
  imports Complex_Main
begin

section \<open>The CRT display filter (CRTShader.glsl)\<close>

text \<open>
  The fragment shader is a pure function of the interpolated coordinate \<open>vUv\<close>, the
  uniforms and the sampled texture. GLSL \<open>float\<close> is modelled by the mathematical reals:
  the formulas of the shader are kept as written (including the literal \<open>3.14159265\<close>),
  rounding is outside the model. A \<open>sampler2D\<close> is a function from coordinates to
  colours, so \<open>texture2D(tex, p)\<close> is \<open>tex p\<close>.
\<close>

type_synonym vec2 = "real \<times> real"
type_synonym vec3 = "real \<times> real \<times> real"
type_synonym vec4 = "real \<times> real \<times> real \<times> real"
type_synonym sampler2D = "vec2 \<Rightarrow> vec4"

text \<open>The uniforms of \<open>CRTShader.uniforms\<close> (the sampler \<open>tDiffuse\<close> is passed separately).\<close>

record uniforms =
  uResolution :: vec2
  uTime :: real
  uScanlineIntensity :: real
  uBarrelStrength :: real
  uChromaticAberration :: real
  uVignetteStrength :: real
  uBrightness :: real

text \<open>The defaults of \<open>CRTShader.uniforms\<close> in CRTShader.js.\<close>

definition CRTShader_uniforms :: uniforms where
  "CRTShader_uniforms =
     \<lparr> uResolution = (0, 0), uTime = 0, uScanlineIntensity = 0.15, uBarrelStrength = 0.15,
       uChromaticAberration = 0.003, uVignetteStrength = 0.4, uBrightness = 1.1 \<rparr>"

subsection \<open>GLSL built-ins\<close>

definition chan_r :: "vec4 \<Rightarrow> real" where
  "chan_r c = fst c"

definition chan_g :: "vec4 \<Rightarrow> real" where
  "chan_g c = fst (snd c)"

definition chan_b :: "vec4 \<Rightarrow> real" where
  "chan_b c = fst (snd (snd c))"

definition rgb :: "vec4 \<Rightarrow> vec3" where
  "rgb c = (chan_r c, chan_g c, chan_b c)"

definition dot2 :: "vec2 \<Rightarrow> vec2 \<Rightarrow> real" where
  "dot2 p q = fst p * fst q + snd p * snd q"

definition dot3 :: "vec3 \<Rightarrow> vec3 \<Rightarrow> real" where
  "dot3 p q = fst p * fst q + fst (snd p) * fst (snd q) + snd (snd p) * snd (snd q)"

text \<open>\<open>mix(x, y, a) = x * (1 - a) + y * a\<close>.\<close>

definition mix :: "real \<Rightarrow> real \<Rightarrow> real \<Rightarrow> real" where
  "mix x y a = x * (1 - a) + y * a"

text \<open>
  \<open>pow(x, y)\<close>: the GLSL specification leaves the result undefined when \<open>x < 0\<close>, and when
  \<open>x = 0\<close> and \<open>y \<le> 0\<close>. The undefined cases are \<open>None\<close>.
\<close>

definition pow :: "real \<Rightarrow> real \<Rightarrow> real option" where
  "pow x y = (if x < 0 \<or> (x = 0 \<and> y \<le> 0) then None else Some (x powr y))"

text \<open>\<open>color.rgb *= s\<close>: the alpha channel is left alone.\<close>

definition rgb_times :: "vec4 \<Rightarrow> real \<Rightarrow> vec4" where
  "rgb_times c s = (chan_r c * s, chan_g c * s, chan_b c * s, snd (snd (snd c)))"

subsection \<open>The shader's functions\<close>

definition barrelDistort :: "vec2 \<Rightarrow> real \<Rightarrow> vec2" where
  "barrelDistort uv strength =
     (let cc = (fst uv - 0.5, snd uv - 0.5);
          dist = dot2 cc cc
      in (fst uv + fst cc * dist * strength, snd uv + snd cc * dist * strength))"

definition sampleChromatic :: "sampler2D \<Rightarrow> vec2 \<Rightarrow> real \<Rightarrow> vec4" where
  "sampleChromatic tex uv aberration =
     (let r = chan_r (tex (fst uv + aberration, snd uv));
          g = chan_g (tex uv);
          b = chan_b (tex (fst uv - aberration, snd uv))
      in (r, g, b, 1))"

text \<open>
  The stages of \<open>main\<close>, one definition per local variable of the source, so that each can
  be named in a statement. \<open>scanline_wave\<close> is the first assignment to \<open>scanline\<close>,
  \<open>scanline\<close> the second one (\<open>pow(scanline, 0.5)\<close>); \<open>uv_y\<close> and \<open>res_y\<close> stand for
  \<open>uv.y\<close> and \<open>uResolution.y\<close>.
\<close>

definition scanline_wave :: "real \<Rightarrow> real \<Rightarrow> real" where
  "scanline_wave uv_y res_y = sin (uv_y * res_y * 3.14159265) * 0.5 + 0.5"

definition scanline :: "real \<Rightarrow> real \<Rightarrow> real option" where
  "scanline uv_y res_y = pow (scanline_wave uv_y res_y) 0.5"

text \<open>\<open>color.rgb += color.rgb * luma * 0.15\<close> with \<open>luma = dot(color.rgb, vec3(0.299, 0.587, 0.114))\<close>.\<close>

definition glow :: "vec4 \<Rightarrow> vec4" where
  "glow c =
     (let luma = dot3 (rgb c) (0.299, 0.587, 0.114)
      in (chan_r c + chan_r c * luma * 0.15, chan_g c + chan_g c * luma * 0.15,
          chan_b c + chan_b c * luma * 0.15, snd (snd (snd c))))"

definition flicker :: "real \<Rightarrow> real" where
  "flicker t = 1.0 + sin (t * 60.0) * 0.003"

text \<open>\<open>vigUv = uv * (1.0 - uv.yx)\<close>.\<close>

definition vigUv :: "vec2 \<Rightarrow> vec2" where
  "vigUv uv = (fst uv * (1.0 - snd uv), snd uv * (1.0 - fst uv))"

definition vignette :: "vec2 \<Rightarrow> real \<Rightarrow> real option" where
  "vignette uv strength = pow (fst (vigUv uv) * snd (vigUv uv) * 15.0) strength"

text \<open>
  \<open>main\<close>: the value written to \<open>gl_FragColor\<close>, \<open>None\<close> when a \<open>pow\<close> of the body is
  undefined. The early \<open>return\<close> of the clip test is the first branch.
\<close>

definition main :: "uniforms \<Rightarrow> sampler2D \<Rightarrow> vec2 \<Rightarrow> vec4 option" where
  "main U tDiffuse vUv =
     (let uv = barrelDistort vUv (uBarrelStrength U * 0.3)
      in if fst uv < 0.0 \<or> fst uv > 1.0 \<or> snd uv < 0.0 \<or> snd uv > 1.0
         then Some (0.0, 0.0, 0.0, 1.0)
         else
           (let color = sampleChromatic tDiffuse uv (uChromaticAberration U)
            in case scanline (snd uv) (snd (uResolution U)) of
                 None \<Rightarrow> None
               | Some sl \<Rightarrow>
                   (let color = rgb_times color (mix 1.0 sl (uScanlineIntensity U));
                        color = glow color;
                        color = rgb_times color (uBrightness U);
                        color = rgb_times color (flicker (uTime U))
                    in case vignette uv (uVignetteStrength U) of
                         None \<Rightarrow> None
                       | Some vg \<Rightarrow> Some (rgb_times color vg))))"

section \<open>The video source adapter and the frame scheduler\<close>

text \<open>
  \<open>EmulatorBridge\<close> (EmulatorBridge.js) and \<open>SceneManager\<close> (SceneManager.js) are objects
  with private mutable fields, driven by callbacks of the browser and of EmulatorJS. They
  are modelled by one record of all the fields involved and one function per method or
  callback, each taking the state and returning the new one. A canvas element is a
  reference (compared by identity, as \<open>!==\<close> does) into a store of width and height
  attributes.
\<close>

type_synonym canvas = nat

record canvas_el =
  width :: nat
  height :: nat

text \<open>A canvas that nobody has sized reports the HTML default, 300 by 150.\<close>

definition default_canvas :: canvas_el where
  "default_canvas = \<lparr> width = 300, height = 150 \<rparr>"

datatype error = ContainerNotFound | TypeError

datatype promise = Pending | Resolved | Rejected

text \<open>
  \<open>THREE.CanvasTexture\<close>, as far as the scheduler uses it: the bound \<open>image\<close>, and the
  counter \<open>version\<close> that the setter \<open>needsUpdate = true\<close> of three.js increments (the
  renderer uploads the image when the counter has moved). The texture is marked dirty once
  for each increment.
\<close>

record texture =
  tex_image :: "canvas option"
  tex_version :: nat

text \<open>
  \<open>THREE.Clock\<close> is a class of the three.js library, not of this repository. Its fields and
  the two methods the scheduler calls follow the library: \<open>start()\<close> sets \<open>startTime\<close> and
  \<open>oldTime\<close> to the current time, \<open>elapsedTime\<close> to 0 and \<open>running\<close> to true;
  \<open>getElapsedTime()\<close> calls \<open>getDelta()\<close>, which starts a stopped clock with \<open>autoStart\<close>
  and otherwise adds the seconds since \<open>oldTime\<close> to \<open>elapsedTime\<close>. The reading of
  \<open>performance.now()\<close> (milliseconds) is an argument.
\<close>

record three_clock =
  autoStart :: bool
  startTime :: real
  oldTime :: real
  elapsedTime :: real
  running :: bool

definition new_Clock :: three_clock where
  "new_Clock = \<lparr> autoStart = True, startTime = 0, oldTime = 0, elapsedTime = 0, running = False \<rparr>"

definition Clock_start :: "real \<Rightarrow> three_clock \<Rightarrow> three_clock" where
  "Clock_start now c = c\<lparr> startTime := now, oldTime := now, elapsedTime := 0, running := True \<rparr>"

definition Clock_getDelta :: "real \<Rightarrow> three_clock \<Rightarrow> three_clock" where
  "Clock_getDelta now c =
     (if autoStart c \<and> \<not> running c then Clock_start now c
      else if running c
        then c\<lparr> oldTime := now, elapsedTime := elapsedTime c + (now - oldTime c) / 1000 \<rparr>
        else c)"

text \<open>\<open>getElapsedTime()\<close>: the clock after the call; the value returned is its \<open>elapsedTime\<close>.\<close>

definition Clock_getElapsedTime :: "real \<Rightarrow> three_clock \<Rightarrow> three_clock" where
  "Clock_getElapsedTime now c = Clock_getDelta now c"

text \<open>
  The state. Fields of \<open>EmulatorBridge\<close>: \<open>placeholderCanvas\<close>, \<open>ejsCanvas\<close>, \<open>isReady\<close>.
  What the closures of \<open>loadROM\<close> hold: \<open>loads\<close> counts the calls of \<open>loadROM\<close> (call number
  \<open>k\<close> creates promise \<open>k\<close>), \<open>onGameStart\<close> is the call whose closure is installed as
  \<open>window.EJS_onGameStart\<close>, \<open>observers\<close> are the connected \<open>MutationObserver\<close>s (the canvas
  each observes and the call whose \<open>resolve\<close> it holds), \<open>promises\<close> the state of each
  promise. Fields of \<open>SceneManager\<close>: \<open>screenMesh\<close> (its texture), \<open>rafId\<close>, \<open>clock\<close>, and
  \<open>crtUniforms\<close> for \<open>postProcessor.crtPass.uniforms\<close>. The browser: \<open>canvases\<close> (the
  attributes of every canvas element), \<open>rafQueue\<close> (the pending animation frame requests,
  each for \<open>#tick\<close>) and \<open>rafNext\<close> (the next request id). Three fields only record what
  happened: \<open>ticks\<close> counts the executions of \<open>#tick\<close>, \<open>swaps\<close> lists the canvases bound
  by the reassignment of \<open>texture.image\<close> (one entry for each
  \<open>texture source swapped\<close> line of the log), \<open>typeErrors\<close> counts the exceptions thrown.
\<close>

record world =
  canvases :: "canvas \<Rightarrow> canvas_el"
  placeholderCanvas :: "canvas option"
  ejsCanvas :: "canvas option"
  isReady :: bool
  loads :: nat
  onGameStart :: "nat option"
  observers :: "(canvas \<times> nat) list"
  promises :: "nat \<Rightarrow> promise"
  screenMesh :: "texture option"
  rafId :: "nat option"
  clock :: three_clock
  crtUniforms :: uniforms
  rafQueue :: "nat list"
  rafNext :: nat
  ticks :: nat
  swaps :: "canvas list"
  typeErrors :: nat

subsection \<open>EmulatorBridge\<close>

text \<open>
  The page before \<open>main()\<close> runs: the field initialisers of both classes, the \<open>Clock\<close> and
  the uniforms that the \<open>SceneManager\<close> constructor creates, no canvas sized yet. (The
  resolution uniform, which \<open>PostProcessor\<close> sets from the size of the renderer, stays at
  its default: no function below reads it from the state.)
\<close>

definition page_loaded :: world where
  "page_loaded =
     \<lparr> canvases = (\<lambda>c. default_canvas), placeholderCanvas = None, ejsCanvas = None,
       isReady = False, loads = 0, onGameStart = None, observers = [],
       promises = (\<lambda>k. Pending), screenMesh = None, rafId = None, clock = new_Clock,
       crtUniforms = CRTShader_uniforms, rafQueue = [], rafNext = 1, ticks = 0, swaps = [],
       typeErrors = 0 \<rparr>"

text \<open>
  The constructor. \<open>container_found\<close> is the outcome of \<open>document.getElementById\<close>, \<open>p\<close> the
  element that \<open>document.createElement('canvas')\<close> returns.
\<close>

definition EmulatorBridge_new :: "bool \<Rightarrow> canvas \<Rightarrow> world \<Rightarrow> error + world" where
  "EmulatorBridge_new container_found p w =
     (if \<not> container_found then Inl ContainerNotFound
      else Inr (w\<lparr> canvases := (canvases w)(p := \<lparr> width = 384, height = 224 \<rparr>),
                   placeholderCanvas := Some p \<rparr>))"

text \<open>The getter \<open>outputCanvas\<close>: \<open>this.#ejsCanvas ?? this.#placeholderCanvas\<close>.\<close>

definition outputCanvas :: "world \<Rightarrow> canvas option" where
  "outputCanvas w = (case ejsCanvas w of Some c \<Rightarrow> Some c | None \<Rightarrow> placeholderCanvas w)"

text \<open>\<open>resolve()\<close> and \<open>reject()\<close> of promise \<open>k\<close>: a settled promise stays as it is.\<close>

definition resolve :: "nat \<Rightarrow> world \<Rightarrow> world" where
  "resolve k w =
     w\<lparr> promises := (promises w)(k := (if promises w k = Pending then Resolved else promises w k)) \<rparr>"

definition reject :: "nat \<Rightarrow> world \<Rightarrow> world" where
  "reject k w =
     w\<lparr> promises := (promises w)(k := (if promises w k = Pending then Rejected else promises w k)) \<rparr>"

text \<open>
  \<open>loadROM\<close>: resets \<open>isReady\<close> and \<open>ejsCanvas\<close>, creates the promise and installs its
  closure as \<open>window.EJS_onGameStart\<close>.
\<close>

definition loadROM :: "world \<Rightarrow> world" where
  "loadROM w =
     w\<lparr> isReady := False, ejsCanvas := None, onGameStart := Some (loads w),
        loads := loads w + 1 \<rparr>"

text \<open>\<open>script.onerror\<close> of call \<open>k\<close>.\<close>

definition loader_error :: "nat \<Rightarrow> world \<Rightarrow> world" where
  "loader_error k w = reject k w"

text \<open>\<open>markReady\<close>, for the canvas and the call its closure holds.\<close>

definition markReady :: "canvas \<Rightarrow> nat \<Rightarrow> world \<Rightarrow> world" where
  "markReady c k w = resolve k (w\<lparr> ejsCanvas := Some c, isReady := True \<rparr>)"

text \<open>
  \<open>window.EJS_onGameStart()\<close>; \<open>emu_canvas\<close> is \<open>window.EJS_emulator?.canvas ?? null\<close>.
  Nothing runs when no closure is installed.
\<close>

definition EJS_onGameStart :: "canvas option \<Rightarrow> world \<Rightarrow> world" where
  "EJS_onGameStart emu_canvas w =
     (case onGameStart w of
        None \<Rightarrow> w
      | Some k \<Rightarrow>
          (case emu_canvas of
             None \<Rightarrow> resolve k (w\<lparr> isReady := True \<rparr>)
           | Some c \<Rightarrow>
               if width (canvases w c) > 300 then markReady c k w
               else w\<lparr> observers := observers w @ [(c, k)] \<rparr>))"

text \<open>
  The callback of one observer \<open>(c', k)\<close> after the attributes of canvas \<open>c\<close> were set:
  it runs when it observes \<open>c\<close>, and disconnects and marks ready when the width is past 300.
\<close>

definition observer_callback :: "canvas \<Rightarrow> canvas \<times> nat \<Rightarrow> world \<Rightarrow> world" where
  "observer_callback c ob w =
     (if fst ob = c \<and> width (canvases w c) > 300
      then markReady c (snd ob) (w\<lparr> observers := remove1 ob (observers w) \<rparr>)
      else w)"

text \<open>
  The emulator sets the \<open>width\<close> and \<open>height\<close> attributes of canvas \<open>c\<close>; the observers
  connected at that moment are then called in order.
\<close>

definition canvas_resized :: "canvas \<Rightarrow> nat \<Rightarrow> nat \<Rightarrow> world \<Rightarrow> world" where
  "canvas_resized c wd ht w =
     fold (observer_callback c) (observers w)
       (w\<lparr> canvases := (canvases w)(c := \<lparr> width = wd, height = ht \<rparr>) \<rparr>)"

subsection \<open>SceneManager\<close>

text \<open>
  \<open>init()\<close>: \<open>new ScreenMesh(node, emulatorBridge.outputCanvas)\<close>. The constructor of
  \<open>CanvasTexture\<close> sets \<open>needsUpdate = true\<close> once.
\<close>

definition init :: "world \<Rightarrow> world" where
  "init w = w\<lparr> screenMesh := Some \<lparr> tex_image = outputCanvas w, tex_version = 1 \<rparr> \<rparr>"

text \<open>\<open>requestAnimationFrame(this.#tick)\<close>, assigned to \<open>#rafId\<close>.\<close>

definition requestAnimationFrame :: "world \<Rightarrow> world" where
  "requestAnimationFrame w =
     w\<lparr> rafId := Some (rafNext w), rafQueue := rafQueue w @ [rafNext w],
        rafNext := rafNext w + 1 \<rparr>"

definition cancelAnimationFrame :: "nat \<Rightarrow> world \<Rightarrow> world" where
  "cancelAnimationFrame i w = w\<lparr> rafQueue := filter (\<lambda>j. j \<noteq> i) (rafQueue w) \<rparr>"

text \<open>
  Step 2 of \<open>#tick\<close>, the body of \<open>if (isReady && screenMesh)\<close>. The log line reads
  \<open>ejsCanvas.width\<close>, which throws a \<open>TypeError\<close> on \<open>null\<close>: the assignment before it has
  happened, the rest of the tick has not. The result is the state and the exception, if any.
\<close>

definition stream_frame :: "world \<Rightarrow> world \<times> error option" where
  "stream_frame w =
     (case screenMesh w of
        None \<Rightarrow> (w, None)
      | Some tex \<Rightarrow>
          if \<not> isReady w then (w, None)
          else if tex_image tex \<noteq> outputCanvas w then
            (case outputCanvas w of
               None \<Rightarrow>
                 (w\<lparr> screenMesh := Some (tex\<lparr> tex_image := None \<rparr>),
                     typeErrors := typeErrors w + 1 \<rparr>, Some TypeError)
             | Some c \<Rightarrow>
                 (w\<lparr> screenMesh := Some \<lparr> tex_image = Some c, tex_version = tex_version tex + 1 \<rparr>,
                     swaps := swaps w @ [c] \<rparr>, None))
          else (w\<lparr> screenMesh := Some (tex\<lparr> tex_version := tex_version tex + 1 \<rparr>) \<rparr>, None))"

text \<open>Step 3 of \<open>#tick\<close>: \<open>uTime.value = this.#clock.getElapsedTime()\<close>.\<close>

definition update_time :: "real \<Rightarrow> world \<Rightarrow> world" where
  "update_time now w =
     (let c = Clock_getElapsedTime now (clock w)
      in w\<lparr> clock := c, crtUniforms := (crtUniforms w)\<lparr> uTime := elapsedTime c \<rparr> \<rparr>)"

text \<open>
  \<open>#tick\<close>. \<open>now\<close> is the reading of \<open>performance.now()\<close> inside \<open>getElapsedTime\<close>. Polling
  the gamepads, updating the orbit controls and rendering change none of the fields above.
\<close>

definition tick :: "real \<Rightarrow> world \<Rightarrow> world" where
  "tick now w =
     (let w1 = (requestAnimationFrame w)\<lparr> ticks := ticks w + 1 \<rparr>
      in case stream_frame w1 of
           (w2, Some e) \<Rightarrow> w2
         | (w2, None) \<Rightarrow> update_time now w2)"

text \<open>\<open>start()\<close>; \<open>t0\<close> is the reading of the clock in \<open>clock.start()\<close>, \<open>t1\<close> the one in the tick.\<close>

definition start :: "real \<Rightarrow> real \<Rightarrow> world \<Rightarrow> world" where
  "start t0 t1 w =
     (if rafId w \<noteq> None then w
      else tick t1 (w\<lparr> clock := Clock_start t0 (clock w) \<rparr>))"

definition stop :: "world \<Rightarrow> world" where
  "stop w =
     (case rafId w of
        None \<Rightarrow> w
      | Some i \<Rightarrow> (cancelAnimationFrame i w)\<lparr> rafId := None \<rparr>)"

text \<open>
  An animation frame of the browser: the requests pending at its beginning are taken off
  the queue and their callback, \<open>#tick\<close>, runs once for each.
\<close>

definition animation_frame :: "real \<Rightarrow> world \<Rightarrow> world" where
  "animation_frame now w = fold (\<lambda>i. tick now) (rafQueue w) (w\<lparr> rafQueue := [] \<rparr>)"

subsection \<open>Runs of the system\<close>

text \<open>
  What can happen to the two objects after construction: the calls of their public methods
  and the callbacks of the browser and of the emulator.
\<close>

datatype event =
    Init
  | LoadROM
  | LoaderError nat
  | GameStart "canvas option"
  | Resize canvas nat nat
  | Start real real
  | Stop
  | Frame real

fun step :: "event \<Rightarrow> world \<Rightarrow> world" where
  "step Init w = init w"
| "step LoadROM w = loadROM w"
| "step (LoaderError k) w = loader_error k w"
| "step (GameStart emu_canvas) w = EJS_onGameStart emu_canvas w"
| "step (Resize c wd ht) w = canvas_resized c wd ht w"
| "step (Start t0 t1) w = start t0 t1 w"
| "step Stop w = stop w"
| "step (Frame now) w = animation_frame now w"

definition run :: "event list \<Rightarrow> world \<Rightarrow> world" where
  "run es w = fold step es w"

text \<open>\<open>n\<close> executions of \<open>#tick\<close> in a row, one for each clock reading of the list.\<close>

definition run_ticks :: "real list \<Rightarrow> world \<Rightarrow> world" where
  "run_ticks ts w = fold tick ts w"

text \<open>
  \<open>main()\<close> of main.js up to the creation of the ROM loader: the bridge is constructed with
  placeholder element \<open>p\<close>, then the scene manager, then \<open>init()\<close> is awaited. When the
  constructor of the bridge throws, \<open>main().catch\<close> logs the error and nothing else runs.
\<close>

definition main_js :: "bool \<Rightarrow> canvas \<Rightarrow> world" where
  "main_js container_found p =
     (case EmulatorBridge_new container_found p page_loaded of
        Inl e \<Rightarrow> page_loaded
      | Inr w \<Rightarrow> init w)"

subsection \<open>Predicates used in the statements\<close>

text \<open>
  The scheduler's invariant: the only pending animation frame request is the one whose id
  \<open>#rafId\<close> holds. \<open>stopped\<close>: no request is pending and \<open>#rafId\<close> is \<open>null\<close>.
\<close>

definition sched_inv :: "world \<Rightarrow> bool" where
  "sched_inv w = (rafQueue w = (case rafId w of None \<Rightarrow> [] | Some i \<Rightarrow> [i]))"

definition stopped :: "world \<Rightarrow> bool" where
  "stopped w = (rafId w = None \<and> rafQueue w = [])"

fun is_Start :: "event \<Rightarrow> bool" where
  "is_Start (Start t0 t1) = True"
| "is_Start e = False"

text \<open>The event sets the width of canvas \<open>c\<close> past the threshold of 300.\<close>

fun sizes_past :: "canvas \<Rightarrow> event \<Rightarrow> bool" where
  "sizes_past c (Resize c' wd ht) = (c' = c \<and> 300 < wd)"
| "sizes_past c e = False"

section \<open>Properties of the display filter\<close>

lemma flicker_bounds: "0.997 \<le> flicker t \<and> flicker t \<le> 1.003"
  unfolding flicker_def
  using sin_ge_minus_one [of "t * 60"] sin_le_one [of "t * 60"] by (simp; linarith)

text \<open>
  C8. For every elapsed time \<open>t\<close> the flicker multiplier is \<open>1 + 0.003 * sin (60 * t)\<close>; it
  lies between 0.997 and 1.003, so multiplying a channel by it keeps the channel's
  magnitude between 99.7 percent and 100.3 percent of its value before the flicker step.
\<close>

theorem flicker_within_three_permille:
  "flicker t = 1 + 0.003 * sin (60 * t) \<and>
   0.997 \<le> flicker t \<and> flicker t \<le> 1.003 \<and>
   0.997 * \<bar>c\<bar> \<le> \<bar>c * flicker t\<bar> \<and> \<bar>c * flicker t\<bar> \<le> 1.003 * \<bar>c\<bar>"
proof -
  have eq: "flicker t = 1 + 0.003 * sin (60 * t)"
    unfolding flicker_def by (simp add: mult.commute)
  have b: "0.997 \<le> flicker t" "flicker t \<le> 1.003"
    using flicker_bounds [of t] by simp_all
  then have pos: "0 \<le> flicker t"
    by simp
  have abs_eq: "\<bar>c * flicker t\<bar> = \<bar>c\<bar> * flicker t"
    using pos by (simp add: abs_mult)
  have lo: "0.997 * \<bar>c\<bar> \<le> \<bar>c\<bar> * flicker t"
    using b(1) mult_left_mono [of "0.997" "flicker t" "\<bar>c\<bar>"] by (simp add: mult.commute)
  have hi: "\<bar>c\<bar> * flicker t \<le> 1.003 * \<bar>c\<bar>"
    using b(2) mult_left_mono [of "flicker t" "1.003" "\<bar>c\<bar>"] by (simp add: mult.commute)
  show ?thesis
    using eq b lo hi abs_eq by simp
qed

lemma rectified_sine_range:
  fixes a :: real
  shows "0 \<le> sin a * 0.5 + 0.5 \<and> sin a * 0.5 + 0.5 \<le> 1"
  using sin_ge_minus_one [of a] sin_le_one [of a] by linarith

lemma scanline_wave_range: "0 \<le> scanline_wave y H \<and> scanline_wave y H \<le> 1"
  unfolding scanline_wave_def by (rule rectified_sine_range)

lemma pow_half: "0 \<le> x \<Longrightarrow> pow x 0.5 = Some (sqrt x)"
  using powr_half_sqrt [of x] by (simp add: pow_def)

lemma scanline_sqrt: "scanline y H = Some (sqrt (scanline_wave y H))"
  unfolding scanline_def using scanline_wave_range [of y H] pow_half by simp

lemma shifted_phase:
  fixes c :: real
  assumes "H \<noteq> 0" and "c \<noteq> 0"
  shows "(y + 2 * pi / (H * c)) * H * c = y * H * c + 2 * pi"
  using assms by (simp add: field_simps)

lemma scanline_wave_shift:
  assumes "H \<noteq> 0"
  shows "scanline_wave (y + 2 * pi / (H * 3.14159265)) H = scanline_wave y H"
proof -
  have "(y + 2 * pi / (H * 3.14159265)) * H * 3.14159265 = y * H * 3.14159265 + 2 * pi"
    using assms by (intro shifted_phase) simp_all
  then show ?thesis
    unfolding scanline_wave_def by (simp only: sin_periodic)
qed

lemma cos_neg_between_2_and_3:
  fixes x :: real
  assumes "2 \<le> x" and "x < 3"
  shows "cos x < 0"
proof -
  have "0 < x - pi / 2"
    using assms pi_half_less_two by linarith
  moreover have "x - pi / 2 < 2"
    using assms pi_ge_two by linarith
  ultimately have "0 < sin (x - pi / 2)"
    by (rule sin_gt_zero_02)
  then show ?thesis
    by (simp add: sin_diff)
qed

lemma sin_quarter_differs: "sin (3.14159265 / 4 :: real) \<noteq> sin (5 * 3.14159265 / 4)"
proof -
  have "sin (5 * 3.14159265 / 4 :: real) - sin (3.14159265 / 4)
        = 2 * sin (3.14159265 / 2) * cos (3 * 3.14159265 / 4)"
    using sin_diff_sin [of "5 * 3.14159265 / 4 :: real" "3.14159265 / 4"] by simp
  moreover have "0 < sin (3.14159265 / 2 :: real)"
    by (rule sin_gt_zero_02) simp_all
  moreover have "cos (3 * 3.14159265 / 4 :: real) < 0"
    by (rule cos_neg_between_2_and_3) simp_all
  ultimately have "sin (5 * 3.14159265 / 4 :: real) - sin (3.14159265 / 4) < 0"
    by (simp add: mult_pos_neg)
  then show ?thesis
    by simp
qed

text \<open>
  C3, as stated, asks for \<open>H\<close> full periods of the scanline factor over \<open>uv.y\<close> in
  \<open>[0,1]\<close>, that is, for the period \<open>1 / H\<close>. At \<open>H = 2\<close> the factor would then agree at
  \<open>uv.y = 1/8\<close> and at \<open>uv.y = 1/8 + 1/2\<close>; it does not.
\<close>

theorem scanline_period_counterexample: "scanline (1/8 + 1/2) 2 \<noteq> scanline (1/8) 2"
proof -
  have a: "scanline_wave (1/8 + 1/2) 2 = sin (5 * 3.14159265 / 4) * 0.5 + 0.5"
    unfolding scanline_wave_def by simp
  have b: "scanline_wave (1/8) 2 = sin (3.14159265 / 4) * 0.5 + 0.5"
    unfolding scanline_wave_def by simp
  have "scanline_wave (1/8 + 1/2) 2 \<noteq> scanline_wave (1/8) 2"
    using sin_quarter_differs unfolding a b by simp
  moreover have "0 \<le> scanline_wave (1/8 + 1/2) 2" "0 \<le> scanline_wave (1/8) 2"
    using scanline_wave_range by blast+
  ultimately show ?thesis
    unfolding scanline_sqrt by simp
qed

lemma main_unclipped:
  "main U tex vUv =
     (let uv = barrelDistort vUv (uBarrelStrength U * 0.3)
      in if fst uv < 0 \<or> 1 < fst uv \<or> snd uv < 0 \<or> 1 < snd uv then Some (0, 0, 0, 1)
         else case vignette uv (uVignetteStrength U) of
                None \<Rightarrow> None
              | Some vg \<Rightarrow>
                  Some (rgb_times (rgb_times (rgb_times (glow (rgb_times
                    (sampleChromatic tex uv (uChromaticAberration U))
                    (mix 1 (sqrt (sin (snd uv * snd (uResolution U) * 3.14159265) * 0.5 + 0.5))
                       (uScanlineIntensity U))))
                    (uBrightness U)) (flicker (uTime U))) vg))"
  unfolding main_def scanline_sqrt scanline_wave_def by (simp add: Let_def split: option.splits)

text \<open>
  C3 (amended). For every \<open>uv.y\<close> and vertical resolution \<open>H\<close> the scanline factor is
  \<open>sqrt (sin (uv.y * H * 3.14159265) * 0.5 + 0.5)\<close>: the sinusoid is mapped into \<open>[0,1]\<close> and
  square-root-softened, \<open>main\<close> multiplies the sampled colour by
  \<open>mix(1, scanline, uScanlineIntensity)\<close>, and the factor repeats when \<open>uv.y\<close> advances by
  \<open>2 * pi / (H * 3.14159265)\<close>, two output rows up to the rounding of the literal: about
  \<open>H / 2\<close> periods over \<open>[0,1]\<close>, not \<open>H\<close>.
\<close>

theorem scanline_modulation:
  "scanline y H = Some (sqrt (sin (y * H * 3.14159265) * 0.5 + 0.5)) \<and>
   0 \<le> sin (y * H * 3.14159265) * 0.5 + 0.5 \<and> sin (y * H * 3.14159265) * 0.5 + 0.5 \<le> 1 \<and>
   mix 1 s i = 1 * (1 - i) + s * i \<and>
   main U tex vUv =
     (let uv = barrelDistort vUv (uBarrelStrength U * 0.3)
      in if fst uv < 0 \<or> 1 < fst uv \<or> snd uv < 0 \<or> 1 < snd uv then Some (0, 0, 0, 1)
         else case vignette uv (uVignetteStrength U) of
                None \<Rightarrow> None
              | Some vg \<Rightarrow>
                  Some (rgb_times (rgb_times (rgb_times (glow (rgb_times
                    (sampleChromatic tex uv (uChromaticAberration U))
                    (mix 1 (sqrt (sin (snd uv * snd (uResolution U) * 3.14159265) * 0.5 + 0.5))
                       (uScanlineIntensity U))))
                    (uBrightness U)) (flicker (uTime U))) vg)) \<and>
   (H \<noteq> 0 \<longrightarrow> scanline (y + 2 * pi / (H * 3.14159265)) H = scanline y H)"
proof -
  have a: "scanline y H = Some (sqrt (sin (y * H * 3.14159265) * 0.5 + 0.5))"
    unfolding scanline_sqrt scanline_wave_def by simp
  have b: "0 \<le> sin (y * H * 3.14159265) * 0.5 + 0.5 \<and> sin (y * H * 3.14159265) * 0.5 + 0.5 \<le> 1"
    by (rule rectified_sine_range)
  have c: "mix 1 s i = 1 * (1 - i) + s * i"
    by (simp add: mix_def)
  have d: "H \<noteq> 0 \<longrightarrow> scanline (y + 2 * pi / (H * 3.14159265)) H = scanline y H"
    unfolding scanline_sqrt using scanline_wave_shift [of H y] by simp
  show ?thesis
    using a b c d main_unclipped [of U tex vUv] by blast
qed

theorem scanline_modulation_witness:
  "(2::real) \<noteq> 0 \<and> scanline (0 + 2 * pi / (2 * 3.14159265)) 2 = scanline 0 2"
  using scanline_modulation [of 0 2] by simp

lemma pow_zero_exponent: "0 < x \<Longrightarrow> pow x 0 = Some 1"
  by (simp add: pow_def)

text \<open>
  C9. With \<open>uVignetteStrength = 0\<close> the vignette multiplier is 1 at every coordinate
  strictly inside the unit square, and the geometric term \<open>uv * (1 - uv.yx)\<close> has a zero
  component exactly on the lines \<open>x = 0\<close>, \<open>x = 1\<close>, \<open>y = 0\<close>, \<open>y = 1\<close> of the border.
\<close>

theorem vignette_strength_zero:
  "(0 < x \<and> x < 1 \<and> 0 < y \<and> y < 1 \<longrightarrow> vignette (x, y) 0 = Some 1) \<and>
   ((fst (vigUv (x, y)) = 0 \<or> snd (vigUv (x, y)) = 0) \<longleftrightarrow> (x = 0 \<or> x = 1 \<or> y = 0 \<or> y = 1))"
proof (intro conjI impI)
  assume h: "0 < x \<and> x < 1 \<and> 0 < y \<and> y < 1"
  then have "0 < x * (1 - y)" and "0 < y * (1 - x)"
    by simp_all
  then have "0 < x * (1 - y) * (y * (1 - x)) * 15"
    by simp
  then show "vignette (x, y) 0 = Some 1"
    unfolding vignette_def vigUv_def using pow_zero_exponent by simp
next
  show "(fst (vigUv (x, y)) = 0 \<or> snd (vigUv (x, y)) = 0) \<longleftrightarrow> (x = 0 \<or> x = 1 \<or> y = 0 \<or> y = 1)"
    unfolding vigUv_def by auto
qed

theorem vignette_strength_zero_witness:
  "(0::real) < 1/2 \<and> (1/2::real) < 1 \<and> vignette (1/2, 1/2) 0 = Some 1"
  using vignette_strength_zero [of "1/2" "1/2"] by simp

lemma barrelDistort_components:
  "barrelDistort (x, y) s =
     (x + (x - 0.5) * ((x - 0.5) * (x - 0.5) + (y - 0.5) * (y - 0.5)) * s,
      y + (y - 0.5) * ((x - 0.5) * (x - 0.5) + (y - 0.5) * (y - 0.5)) * s)"
  by (simp add: barrelDistort_def dot2_def Let_def)

lemma main_clipped:
  assumes "fst (barrelDistort vUv (uBarrelStrength U * 0.3)) < 0 \<or>
           fst (barrelDistort vUv (uBarrelStrength U * 0.3)) > 1 \<or>
           snd (barrelDistort vUv (uBarrelStrength U * 0.3)) < 0 \<or>
           snd (barrelDistort vUv (uBarrelStrength U * 0.3)) > 1"
  shows "main U tex vUv = Some (0, 0, 0, 1)"
  using assms unfolding main_def Let_def by auto

text \<open>
  C4. The distorted coordinate is \<open>uv + (uv - 0.5) * dot(uv - 0.5, uv - 0.5) * (uBarrelStrength * 0.3)\<close>;
  with \<open>uBarrelStrength = 0\<close> it is \<open>uv\<close> itself; and a pixel whose distorted coordinate
  leaves the unit square is written as opaque black whatever the texture and the other
  uniforms are (the rest of \<open>main\<close> is skipped).
\<close>

theorem barrel_distortion_and_clip:
  "barrelDistort (x, y) (k * 0.3) =
     (x + (x - 0.5) * ((x - 0.5) * (x - 0.5) + (y - 0.5) * (y - 0.5)) * (k * 0.3),
      y + (y - 0.5) * ((x - 0.5) * (x - 0.5) + (y - 0.5) * (y - 0.5)) * (k * 0.3)) \<and>
   barrelDistort (x, y) (0 * 0.3) = (x, y) \<and>
   (fst (barrelDistort vUv (uBarrelStrength U * 0.3)) < 0 \<or>
    fst (barrelDistort vUv (uBarrelStrength U * 0.3)) > 1 \<or>
    snd (barrelDistort vUv (uBarrelStrength U * 0.3)) < 0 \<or>
    snd (barrelDistort vUv (uBarrelStrength U * 0.3)) > 1
    \<longrightarrow> main U tex vUv = Some (0, 0, 0, 1))"
  using barrelDistort_components [of x y "k * 0.3"] barrelDistort_components [of x y "0 * 0.3"]
    main_clipped [of vUv U tex]
  by simp

theorem barrel_distortion_and_clip_witness:
  "fst (barrelDistort (1, 1) (uBarrelStrength CRTShader_uniforms * 0.3)) > 1 \<and>
   main CRTShader_uniforms (\<lambda>q. (1, 1, 1, 1)) (1, 1) = Some (0, 0, 0, 1)"
proof -
  have h: "fst (barrelDistort (1, 1) (uBarrelStrength CRTShader_uniforms * 0.3)) > 1"
    by (simp add: barrelDistort_def dot2_def CRTShader_uniforms_def Let_def)
  show ?thesis
    using h barrel_distortion_and_clip [of 0 0 0 "(1, 1)" CRTShader_uniforms "\<lambda>q. (1, 1, 1, 1)"] by simp
qed

section \<open>Properties of the adapter and the scheduler\<close>

lemmas tick_defs = tick_def stream_frame_def update_time_def requestAnimationFrame_def Let_def

lemma tick_scheduler [simp]:
  "rafId (tick now w) = Some (rafNext w)"
  "rafQueue (tick now w) = rafQueue w @ [rafNext w]"
  "ticks (tick now w) = ticks w + 1"
  by (auto simp: tick_defs split: option.splits prod.splits if_splits)

lemma tick_bridge [simp]:
  "ejsCanvas (tick now w) = ejsCanvas w"
  "placeholderCanvas (tick now w) = placeholderCanvas w"
  "isReady (tick now w) = isReady w"
  "canvases (tick now w) = canvases w"
  "observers (tick now w) = observers w"
  "promises (tick now w) = promises w"
  "onGameStart (tick now w) = onGameStart w"
  "loads (tick now w) = loads w"
  by (auto simp: tick_defs split: option.splits prod.splits if_splits)

lemma outputCanvas_tick [simp]: "outputCanvas (tick now w) = outputCanvas w"
  by (simp add: outputCanvas_def split: option.splits)

lemma tick_not_ready:
  "\<not> isReady w \<or> screenMesh w = None \<Longrightarrow> screenMesh (tick now w) = screenMesh w"
  by (auto simp: tick_defs split: option.splits prod.splits if_splits)

lemma tick_ready:
  "isReady w \<Longrightarrow> screenMesh w = Some tex \<Longrightarrow> outputCanvas w = Some c \<Longrightarrow>
   screenMesh (tick now w) = Some \<lparr> tex_image = Some c, tex_version = tex_version tex + 1 \<rparr>"
  by (auto simp: tick_defs outputCanvas_def split: option.splits prod.splits if_splits)

text \<open>
  C1 (amended). A tick marks the streamed texture dirty (and binds it to the current output
  canvas) when the emulator is ready and the screen mesh exists; a tick on which the
  emulator is not ready, or the screen mesh is missing, leaves the texture as it was.
\<close>

theorem tick_marks_dirty_when_ready:
  "(isReady w \<and> screenMesh w = Some tex \<and> outputCanvas w = Some c \<longrightarrow>
      screenMesh (tick now w) = Some \<lparr> tex_image = Some c, tex_version = tex_version tex + 1 \<rparr>) \<and>
   (\<not> isReady w \<or> screenMesh w = None \<longrightarrow> screenMesh (tick now w) = screenMesh w)"
  using tick_ready [of w tex c now] tick_not_ready [of w now] by blast

lemma main_js_fields:
  "placeholderCanvas (main_js True p) = Some p"
  "ejsCanvas (main_js True p) = None"
  "isReady (main_js True p) = False"
  "screenMesh (main_js True p) = Some \<lparr> tex_image = Some p, tex_version = 1 \<rparr>"
  "rafId (main_js True p) = None"
  "rafQueue (main_js True p) = []"
  "canvases (main_js True p) p = \<lparr> width = 384, height = 224 \<rparr>"
  by (simp_all add: main_js_def EmulatorBridge_new_def page_loaded_def init_def outputCanvas_def)

text \<open>
  C1, as stated, has every tick mark the texture dirty, also before the emulator is ready.
  After \<open>main()\<close> no ROM is loaded: \<open>start()\<close> runs a tick, and the texture keeps the version
  the constructor gave it.
\<close>

theorem tick_not_ready_counterexample:
  "ticks (main_js True 0) = 0 \<and>
   screenMesh (main_js True 0) = Some \<lparr> tex_image = Some 0, tex_version = 1 \<rparr> \<and>
   ticks (start 0 0 (main_js True 0)) = 1 \<and>
   screenMesh (start 0 0 (main_js True 0)) = Some \<lparr> tex_image = Some 0, tex_version = 1 \<rparr>"
  by (simp add: start_def main_js_fields tick_not_ready)
    (simp add: main_js_def EmulatorBridge_new_def page_loaded_def init_def)

subsection \<open>Bridge operations leave the scheduler alone\<close>

lemma resolve_fields [simp]:
  "rafId (resolve k w) = rafId w"
  "rafQueue (resolve k w) = rafQueue w"
  "ticks (resolve k w) = ticks w"
  "ejsCanvas (resolve k w) = ejsCanvas w"
  "placeholderCanvas (resolve k w) = placeholderCanvas w"
  "isReady (resolve k w) = isReady w"
  "canvases (resolve k w) = canvases w"
  "observers (resolve k w) = observers w"
  "screenMesh (resolve k w) = screenMesh w"
  "swaps (resolve k w) = swaps w"
  "onGameStart (resolve k w) = onGameStart w"
  by (simp_all add: resolve_def)

lemma markReady_fields [simp]:
  "rafId (markReady c k w) = rafId w"
  "rafQueue (markReady c k w) = rafQueue w"
  "ticks (markReady c k w) = ticks w"
  "ejsCanvas (markReady c k w) = Some c"
  "placeholderCanvas (markReady c k w) = placeholderCanvas w"
  "isReady (markReady c k w) = True"
  "canvases (markReady c k w) = canvases w"
  "observers (markReady c k w) = observers w"
  "screenMesh (markReady c k w) = screenMesh w"
  "swaps (markReady c k w) = swaps w"
  "onGameStart (markReady c k w) = onGameStart w"
  by (simp_all add: markReady_def)

lemma observer_callback_fields [simp]:
  "rafId (observer_callback c ob w) = rafId w"
  "rafQueue (observer_callback c ob w) = rafQueue w"
  "ticks (observer_callback c ob w) = ticks w"
  "placeholderCanvas (observer_callback c ob w) = placeholderCanvas w"
  "canvases (observer_callback c ob w) = canvases w"
  "screenMesh (observer_callback c ob w) = screenMesh w"
  "swaps (observer_callback c ob w) = swaps w"
  "onGameStart (observer_callback c ob w) = onGameStart w"
  by (simp_all add: observer_callback_def)

lemma fold_observer_callback_fields [simp]:
  "rafId (fold (observer_callback c) obs w) = rafId w"
  "rafQueue (fold (observer_callback c) obs w) = rafQueue w"
  "ticks (fold (observer_callback c) obs w) = ticks w"
  "placeholderCanvas (fold (observer_callback c) obs w) = placeholderCanvas w"
  "canvases (fold (observer_callback c) obs w) = canvases w"
  "screenMesh (fold (observer_callback c) obs w) = screenMesh w"
  "swaps (fold (observer_callback c) obs w) = swaps w"
  "onGameStart (fold (observer_callback c) obs w) = onGameStart w"
  by (induction obs arbitrary: w; simp)+

lemma canvas_resized_fields [simp]:
  "rafId (canvas_resized c wd ht w) = rafId w"
  "rafQueue (canvas_resized c wd ht w) = rafQueue w"
  "ticks (canvas_resized c wd ht w) = ticks w"
  "placeholderCanvas (canvas_resized c wd ht w) = placeholderCanvas w"
  "canvases (canvas_resized c wd ht w) = (canvases w)(c := \<lparr> width = wd, height = ht \<rparr>)"
  "screenMesh (canvas_resized c wd ht w) = screenMesh w"
  "swaps (canvas_resized c wd ht w) = swaps w"
  "onGameStart (canvas_resized c wd ht w) = onGameStart w"
  by (simp_all add: canvas_resized_def)

lemma EJS_onGameStart_fields [simp]:
  "rafId (EJS_onGameStart ec w) = rafId w"
  "rafQueue (EJS_onGameStart ec w) = rafQueue w"
  "ticks (EJS_onGameStart ec w) = ticks w"
  "placeholderCanvas (EJS_onGameStart ec w) = placeholderCanvas w"
  "canvases (EJS_onGameStart ec w) = canvases w"
  "screenMesh (EJS_onGameStart ec w) = screenMesh w"
  "swaps (EJS_onGameStart ec w) = swaps w"
  "onGameStart (EJS_onGameStart ec w) = onGameStart w"
  by (simp_all add: EJS_onGameStart_def split: option.splits)

lemma loadROM_fields [simp]:
  "rafId (loadROM w) = rafId w"
  "rafQueue (loadROM w) = rafQueue w"
  "ticks (loadROM w) = ticks w"
  "placeholderCanvas (loadROM w) = placeholderCanvas w"
  "canvases (loadROM w) = canvases w"
  "screenMesh (loadROM w) = screenMesh w"
  "swaps (loadROM w) = swaps w"
  "ejsCanvas (loadROM w) = None"
  "isReady (loadROM w) = False"
  "onGameStart (loadROM w) = Some (loads w)"
  by (simp_all add: loadROM_def)

lemma loader_error_fields [simp]:
  "rafId (loader_error k w) = rafId w"
  "rafQueue (loader_error k w) = rafQueue w"
  "ticks (loader_error k w) = ticks w"
  "placeholderCanvas (loader_error k w) = placeholderCanvas w"
  "ejsCanvas (loader_error k w) = ejsCanvas w"
  "isReady (loader_error k w) = isReady w"
  "canvases (loader_error k w) = canvases w"
  "screenMesh (loader_error k w) = screenMesh w"
  by (simp_all add: loader_error_def reject_def)

lemma init_fields [simp]:
  "rafId (init w) = rafId w"
  "rafQueue (init w) = rafQueue w"
  "ticks (init w) = ticks w"
  "placeholderCanvas (init w) = placeholderCanvas w"
  "ejsCanvas (init w) = ejsCanvas w"
  "isReady (init w) = isReady w"
  "canvases (init w) = canvases w"
  by (simp_all add: init_def)

subsection \<open>start and stop\<close>

lemma start_running: "rafId w \<noteq> None \<Longrightarrow> start t0 t1 w = w"
  by (simp add: start_def)

lemma stop_stopped: "rafId w = None \<Longrightarrow> stop w = w"
  by (simp add: stop_def)

lemma stop_gives_stopped: "sched_inv w \<Longrightarrow> stopped (stop w) \<and> ticks (stop w) = ticks w"
  by (auto simp: sched_inv_def stopped_def stop_def cancelAnimationFrame_def split: option.splits)

lemma stopped_step:
  "stopped w \<Longrightarrow> \<not> is_Start e \<Longrightarrow> stopped (step e w) \<and> ticks (step e w) = ticks w"
  by (cases e) (simp_all add: stopped_def stop_def animation_frame_def)

lemma stopped_run:
  "stopped w \<Longrightarrow> \<forall>e\<in>set es. \<not> is_Start e \<Longrightarrow> stopped (run es w) \<and> ticks (run es w) = ticks w"
proof (induction es arbitrary: w)
  case Nil
  then show ?case by (simp add: run_def)
next
  case (Cons e es)
  have s: "stopped (step e w) \<and> ticks (step e w) = ticks w"
    using Cons.prems stopped_step [of w e] by simp
  have "stopped (run es (step e w)) \<and> ticks (run es (step e w)) = ticks (step e w)"
    using Cons.IH [of "step e w"] Cons.prems s by simp
  then show ?case
    using s by (simp add: run_def)
qed

lemma sched_inv_step: "sched_inv w \<Longrightarrow> sched_inv (step e w)"
proof (cases e)
  case (Start t0 t1)
  assume "sched_inv w"
  then show ?thesis
    unfolding Start by (auto simp: sched_inv_def start_def split: option.splits)
next
  case Stop
  assume "sched_inv w"
  then show ?thesis
    unfolding Stop by (auto simp: sched_inv_def stop_def cancelAnimationFrame_def split: option.splits)
next
  case (Frame now)
  assume "sched_inv w"
  then show ?thesis
    unfolding Frame by (auto simp: sched_inv_def animation_frame_def split: option.splits)
qed (simp_all add: sched_inv_def)

lemma sched_inv_run: "sched_inv w \<Longrightarrow> sched_inv (run es w)"
  by (induction es arbitrary: w) (simp_all add: run_def sched_inv_step)

lemma sched_inv_main_js: "sched_inv (main_js cf p)"
  by (simp add: sched_inv_def main_js_def EmulatorBridge_new_def page_loaded_def init_def)

text \<open>
  C6. \<open>start()\<close> on a running scheduler and \<open>stop()\<close> on a stopped one change nothing; and
  after \<open>stop()\<close>, in any state the system can reach from \<open>main()\<close>, no sequence of events
  without a \<open>start()\<close> executes a tick or leaves a request pending.
\<close>

theorem start_stop_idempotent:
  "(rafId w \<noteq> None \<longrightarrow> start t0 t1 w = w) \<and>
   (rafId w = None \<longrightarrow> stop w = w) \<and>
   ((\<forall>e\<in>set es. \<not> is_Start e) \<longrightarrow>
      ticks (run es (stop (run es0 (main_js cf p)))) = ticks (run es0 (main_js cf p)) \<and>
      rafId (run es (stop (run es0 (main_js cf p)))) = None)"
proof (intro conjI impI)
  assume ns: "\<forall>e\<in>set es. \<not> is_Start e"
  let ?w = "run es0 (main_js cf p)"
  have "sched_inv ?w"
    by (rule sched_inv_run) (rule sched_inv_main_js)
  then have st: "stopped (stop ?w)" and tk: "ticks (stop ?w) = ticks ?w"
    using stop_gives_stopped by blast+
  have "stopped (run es (stop ?w)) \<and> ticks (run es (stop ?w)) = ticks (stop ?w)"
    using stopped_run [OF st ns] .
  then show "ticks (run es (stop ?w)) = ticks ?w" and "rafId (run es (stop ?w)) = None"
    using tk by (simp_all add: stopped_def)
qed (simp_all add: start_running stop_stopped)


subsection \<open>The time uniform\<close>

lemma tick_time:
  assumes "placeholderCanvas w \<noteq> None"
  shows "clock (tick now w) = Clock_getElapsedTime now (clock w)"
    and "crtUniforms (tick now w) =
           (crtUniforms w)\<lparr> uTime := elapsedTime (Clock_getElapsedTime now (clock w)) \<rparr>"
  using assms
  by (auto simp: tick_defs outputCanvas_def split: option.splits prod.splits if_splits)

lemma elapsed_monotone:
  assumes "t1 \<le> t2"
  shows "elapsedTime (Clock_getElapsedTime t1 c)
         \<le> elapsedTime (Clock_getElapsedTime t2 (Clock_getElapsedTime t1 c))"
  using assms by (simp add: Clock_getElapsedTime_def Clock_getDelta_def Clock_start_def)

lemma elapsed_after_start:
  "elapsedTime (Clock_getElapsedTime t1 (Clock_start t0 c)) = (t1 - t0) / 1000"
  by (simp add: Clock_getElapsedTime_def Clock_getDelta_def Clock_start_def)

lemma screenMesh_tick_clock:
  "screenMesh (tick now (w\<lparr> clock := c \<rparr>)) = screenMesh (tick now w)"
  by (auto simp: tick_defs outputCanvas_def split: option.splits prod.splits if_splits)

text \<open>
  C5 (amended). \<open>start()\<close> on a stopped scheduler resumes ticking, leaves every uniform but
  the time as it was and treats the bound source as any tick does, but it restarts the
  clock: the time uniform becomes the time since this \<open>start()\<close>. Between two consecutive
  ticks with no \<open>start()\<close> in between and clock readings in order, the time uniform does not
  decrease.
\<close>

theorem start_restarts_clock:
  "(rafId w = None \<and> placeholderCanvas w \<noteq> None \<longrightarrow>
      rafId (start t0 t1 w) \<noteq> None \<and>
      crtUniforms (start t0 t1 w) = (crtUniforms w)\<lparr> uTime := (t1 - t0) / 1000 \<rparr> \<and>
      screenMesh (start t0 t1 w) = screenMesh (tick t1 w)) \<and>
   (placeholderCanvas w \<noteq> None \<and> t1 \<le> t2 \<longrightarrow>
      uTime (crtUniforms (tick t1 w)) \<le> uTime (crtUniforms (tick t2 (tick t1 w))))"
proof (intro conjI impI)
  assume h: "rafId w = None \<and> placeholderCanvas w \<noteq> None"
  show "rafId (start t0 t1 w) \<noteq> None"
    using h by (simp add: start_def)
  show "crtUniforms (start t0 t1 w) = (crtUniforms w)\<lparr> uTime := (t1 - t0) / 1000 \<rparr>"
    using h tick_time(2) [of "w\<lparr> clock := Clock_start t0 (clock w) \<rparr>" t1]
    by (simp add: start_def elapsed_after_start)
  show "screenMesh (start t0 t1 w) = screenMesh (tick t1 w)"
    using h by (simp add: start_def screenMesh_tick_clock)
next
  assume h: "placeholderCanvas w \<noteq> None \<and> t1 \<le> t2"
  have a: "uTime (crtUniforms (tick t1 w)) = elapsedTime (Clock_getElapsedTime t1 (clock w))"
    using h tick_time(2) [of w t1] by simp
  have b: "uTime (crtUniforms (tick t2 (tick t1 w)))
           = elapsedTime (Clock_getElapsedTime t2 (Clock_getElapsedTime t1 (clock w)))"
    using h tick_time(2) [of "tick t1 w" t2] tick_time(1) [of w t1] by simp
  show "uTime (crtUniforms (tick t1 w)) \<le> uTime (crtUniforms (tick t2 (tick t1 w)))"
    unfolding a b using h elapsed_monotone by simp
qed

lemmas world_defs = main_js_def EmulatorBridge_new_def page_loaded_def init_def outputCanvas_def
  run_def start_def stop_def animation_frame_def cancelAnimationFrame_def tick_defs
  Clock_getElapsedTime_def Clock_getDelta_def Clock_start_def new_Clock_def
  loadROM_def EJS_onGameStart_def markReady_def resolve_def canvas_resized_def
  observer_callback_def default_canvas_def CRTShader_uniforms_def

text \<open>
  C5, as stated, has the time uniform never decrease from one tick to the next, also across
  \<open>stop()\<close> and \<open>start()\<close>. The tick of the frame at 5000 ms sets it to 5; the next tick,
  run by the \<open>start()\<close> that follows the \<open>stop()\<close>, sets it to 0.
\<close>

theorem time_reset_counterexample:
  "uTime (crtUniforms (run [Start 0 0, Frame 5000] (main_js True 0))) = 5 \<and>
   uTime (crtUniforms (run [Start 0 0, Frame 5000, Stop, Start 6000 6000] (main_js True 0))) = 0"
  by (simp add: world_defs)

theorem start_restarts_clock_witness:
  "rafId (main_js True 0) = None \<and> placeholderCanvas (main_js True 0) \<noteq> None \<and>
   rafId (start 1000 1016 (main_js True 0)) \<noteq> None \<and>
   uTime (crtUniforms (start 1000 1016 (main_js True 0))) = 16 / 1000 \<and>
   (1016::real) \<le> 1032 \<and>
   uTime (crtUniforms (tick 1016 (main_js True 0)))
     \<le> uTime (crtUniforms (tick 1032 (tick 1016 (main_js True 0))))"
  using start_restarts_clock [of "main_js True 0" 1000 1016 1032]
  by (simp add: main_js_fields)

theorem start_stop_idempotent_witness:
  "rafId (start 0 0 (main_js True 0)) \<noteq> None \<and>
   start 5 5 (start 0 0 (main_js True 0)) = start 0 0 (main_js True 0) \<and>
   rafId (main_js True 0) = None \<and> stop (main_js True 0) = main_js True 0 \<and>
   \<not> is_Start (Frame 16) \<and> \<not> is_Start Stop \<and>
   ticks (run [Frame 16, Stop, Frame 32] (stop (run [Start 0 0, Frame 8] (main_js True 0))))
     = ticks (run [Start 0 0, Frame 8] (main_js True 0))"
  using start_stop_idempotent [of "start 0 0 (main_js True 0)" 5 5 "[Frame 16, Stop, Frame 32]"
      "[Start 0 0, Frame 8]" True 0]
    start_stop_idempotent [of "main_js True 0" 0 0 "[]" "[]" True 0]
  by (simp add: main_js_fields start_def)

theorem tick_marks_dirty_when_ready_witness:
  "isReady (EJS_onGameStart None (loadROM (main_js True 0))) \<and>
   screenMesh (EJS_onGameStart None (loadROM (main_js True 0)))
     = Some \<lparr> tex_image = Some 0, tex_version = 1 \<rparr> \<and>
   outputCanvas (EJS_onGameStart None (loadROM (main_js True 0))) = Some 0 \<and>
   screenMesh (tick 16 (EJS_onGameStart None (loadROM (main_js True 0))))
     = Some \<lparr> tex_image = Some 0, tex_version = 2 \<rparr> \<and>
   \<not> isReady (main_js True 0) \<and>
   screenMesh (tick 16 (main_js True 0)) = screenMesh (main_js True 0)"
  using tick_marks_dirty_when_ready [of "EJS_onGameStart None (loadROM (main_js True 0))"
      "\<lparr> tex_image = Some 0, tex_version = 1 \<rparr>" 0 16]
    tick_marks_dirty_when_ready [of "main_js True 0" "\<lparr> tex_image = None, tex_version = 0 \<rparr>" 0 16]
  by (simp add: main_js_fields EJS_onGameStart_def outputCanvas_def)

subsection \<open>Game start without a canvas\<close>

text \<open>
  C10. When the game start callback of a pending load finds no emulator canvas while the
  placeholder is being served, the promise of \<open>loadROM\<close> is resolved and \<open>isReady\<close> becomes
  true, while \<open>outputCanvas\<close> still returns the 384 by 224 placeholder: \<open>isReady\<close> does not
  tell that a real source is bound.
\<close>

theorem game_start_without_canvas:
  "onGameStart w = Some k \<and> promises w k = Pending \<and> ejsCanvas w = None \<and>
   placeholderCanvas w = Some p \<and> canvases w p = \<lparr> width = 384, height = 224 \<rparr> \<longrightarrow>
     isReady (EJS_onGameStart None w) \<and>
     promises (EJS_onGameStart None w) k = Resolved \<and>
     ejsCanvas (EJS_onGameStart None w) = None \<and>
     outputCanvas (EJS_onGameStart None w) = Some p \<and>
     canvases (EJS_onGameStart None w) p = \<lparr> width = 384, height = 224 \<rparr>"
  by (simp add: EJS_onGameStart_def resolve_def outputCanvas_def)

theorem game_start_without_canvas_witness:
  "onGameStart (loadROM (main_js True 0)) = Some 0 \<and>
   promises (loadROM (main_js True 0)) 0 = Pending \<and>
   ejsCanvas (loadROM (main_js True 0)) = None \<and>
   placeholderCanvas (loadROM (main_js True 0)) = Some 0 \<and>
   canvases (loadROM (main_js True 0)) 0 = \<lparr> width = 384, height = 224 \<rparr> \<and>
   isReady (EJS_onGameStart None (loadROM (main_js True 0))) \<and>
   promises (EJS_onGameStart None (loadROM (main_js True 0))) 0 = Resolved \<and>
   outputCanvas (EJS_onGameStart None (loadROM (main_js True 0))) = Some 0"
proof -
  have h: "onGameStart (loadROM (main_js True 0)) = Some 0 \<and>
     promises (loadROM (main_js True 0)) 0 = Pending \<and>
     ejsCanvas (loadROM (main_js True 0)) = None \<and>
     placeholderCanvas (loadROM (main_js True 0)) = Some 0 \<and>
     canvases (loadROM (main_js True 0)) 0 = \<lparr> width = 384, height = 224 \<rparr>"
    by (simp add: main_js_fields)
      (simp add: loadROM_def main_js_def EmulatorBridge_new_def page_loaded_def init_def)
  show ?thesis
    using h game_start_without_canvas [of "loadROM (main_js True 0)" 0 0] by simp
qed

subsection \<open>The surface served by outputCanvas\<close>

lemma fold_tick_bridge [simp]:
  "ejsCanvas (fold (\<lambda>i. tick now) q w) = ejsCanvas w"
  "placeholderCanvas (fold (\<lambda>i. tick now) q w) = placeholderCanvas w"
  "canvases (fold (\<lambda>i. tick now) q w) = canvases w"
  by (induction q arbitrary: w; simp)+

lemma animation_frame_bridge [simp]:
  "ejsCanvas (animation_frame now w) = ejsCanvas w"
  "placeholderCanvas (animation_frame now w) = placeholderCanvas w"
  "canvases (animation_frame now w) = canvases w"
  by (simp_all add: animation_frame_def)

lemma start_bridge [simp]:
  "ejsCanvas (start t0 t1 w) = ejsCanvas w"
  "placeholderCanvas (start t0 t1 w) = placeholderCanvas w"
  "canvases (start t0 t1 w) = canvases w"
  by (simp_all add: start_def)

lemma stop_bridge [simp]:
  "ejsCanvas (stop w) = ejsCanvas w"
  "placeholderCanvas (stop w) = placeholderCanvas w"
  "canvases (stop w) = canvases w"
  by (simp_all add: stop_def cancelAnimationFrame_def split: option.splits)

lemma placeholderCanvas_step [simp]: "placeholderCanvas (step e w) = placeholderCanvas w"
  by (cases e) simp_all

lemma placeholderCanvas_run [simp]: "placeholderCanvas (run es w) = placeholderCanvas w"
  by (induction es arbitrary: w) (simp_all add: run_def)

lemma outputCanvas_not_None: "placeholderCanvas w \<noteq> None \<Longrightarrow> outputCanvas w \<noteq> None"
  by (simp add: outputCanvas_def split: option.splits)

text \<open>An observer callback either leaves \<open>ejsCanvas\<close> alone or binds the resized canvas.\<close>

lemma observer_callback_ejsCanvas:
  "ejsCanvas (observer_callback c ob w) = ejsCanvas w \<or>
   (ejsCanvas (observer_callback c ob w) = Some c \<and> 300 < width (canvases w c))"
  by (simp add: observer_callback_def)

lemma fold_observer_callback_ejsCanvas:
  "ejsCanvas (fold (observer_callback c) obs w) = ejsCanvas w \<or>
   (ejsCanvas (fold (observer_callback c) obs w) = Some c \<and> 300 < width (canvases w c))"
proof (induction obs arbitrary: w)
  case Nil
  then show ?case by simp
next
  case (Cons ob obs)
  show ?case
    using Cons.IH [of "observer_callback c ob w"] observer_callback_ejsCanvas [of c ob w]
    by auto
qed

lemma ejsCanvas_step:
  "ejsCanvas (step e w) = ejsCanvas w \<or> e = LoadROM \<or>
   (\<exists>c. ejsCanvas (step e w) = Some c \<and> 300 < width (canvases (step e w) c))"
proof (cases e)
  case (GameStart ec)
  then show ?thesis
    by (auto simp: EJS_onGameStart_def split: option.splits)
next
  case (Resize c wd ht)
  show ?thesis
    using fold_observer_callback_ejsCanvas
      [of c "observers w" "w\<lparr> canvases := (canvases w)(c := \<lparr> width = wd, height = ht \<rparr>) \<rparr>"]
    unfolding Resize by (auto simp: canvas_resized_def)
qed simp_all

lemma outputCanvas_step:
  "outputCanvas (step e w) = outputCanvas w \<or> e = LoadROM \<or>
   (\<exists>c. outputCanvas (step e w) = Some c \<and> 300 < width (canvases (step e w) c))"
  using ejsCanvas_step [of e w] by (auto simp: outputCanvas_def split: option.splits)

lemma observer_callback_keeps_ejsCanvas:
  "ejsCanvas w \<noteq> None \<Longrightarrow> ejsCanvas (observer_callback c ob w) \<noteq> None"
  by (simp add: observer_callback_def)

lemma fold_observer_callback_keeps_ejsCanvas:
  "ejsCanvas w \<noteq> None \<Longrightarrow> ejsCanvas (fold (observer_callback c) obs w) \<noteq> None"
proof (induction obs arbitrary: w)
  case Nil
  then show ?case by simp
next
  case (Cons ob obs)
  have "ejsCanvas (observer_callback c ob w) \<noteq> None"
    using Cons.prems by (rule observer_callback_keeps_ejsCanvas)
  then have "ejsCanvas (fold (observer_callback c) obs (observer_callback c ob w)) \<noteq> None"
    by (rule Cons.IH)
  then show ?case by simp
qed

lemma ejsCanvas_step_kept:
  "ejsCanvas w \<noteq> None \<Longrightarrow> e \<noteq> LoadROM \<Longrightarrow> ejsCanvas (step e w) \<noteq> None"
proof (cases e)
  case (GameStart ec)
  assume "ejsCanvas w \<noteq> None"
  then show ?thesis
    unfolding GameStart by (auto simp: EJS_onGameStart_def split: option.splits)
next
  case (Resize c wd ht)
  assume "ejsCanvas w \<noteq> None"
  then show ?thesis
    unfolding Resize by (simp add: canvas_resized_def fold_observer_callback_keeps_ejsCanvas)
qed simp_all

lemma ejsCanvas_run_kept:
  "ejsCanvas w \<noteq> None \<Longrightarrow> LoadROM \<notin> set es \<Longrightarrow> ejsCanvas (run es w) \<noteq> None"
proof (induction es arbitrary: w)
  case Nil
  then show ?case by (simp add: run_def)
next
  case (Cons e es)
  have "ejsCanvas (step e w) \<noteq> None"
    using Cons.prems ejsCanvas_step_kept [of w e] by auto
  then have "ejsCanvas (run es (step e w)) \<noteq> None"
    using Cons.IH [of "step e w"] Cons.prems by simp
  then show ?case
    by (simp add: run_def)
qed

lemma observer_callback_ready:
  "ejsCanvas w = Some c \<and> isReady w \<Longrightarrow>
   ejsCanvas (observer_callback c ob w) = Some c \<and> isReady (observer_callback c ob w)"
  by (simp add: observer_callback_def)

lemma fold_observer_callback_ready:
  "ejsCanvas w = Some c \<and> isReady w \<Longrightarrow>
   ejsCanvas (fold (observer_callback c) obs w) = Some c \<and>
   isReady (fold (observer_callback c) obs w)"
proof (induction obs arbitrary: w)
  case Nil
  then show ?case by simp
next
  case (Cons ob obs)
  have "ejsCanvas (observer_callback c ob w) = Some c \<and> isReady (observer_callback c ob w)"
    using Cons.prems by (rule observer_callback_ready)
  then show ?case
    using Cons.IH [of "observer_callback c ob w"] by simp
qed

lemma fold_observer_callback_fires:
  assumes "(c, k) \<in> set obs" and "300 < width (canvases w c)"
  shows "ejsCanvas (fold (observer_callback c) obs w) = Some c \<and>
         isReady (fold (observer_callback c) obs w)"
  using assms
proof (induction obs arbitrary: w)
  case Nil
  then show ?case by simp
next
  case (Cons ob obs)
  show ?case
  proof (cases "fst ob = c")
    case True
    then have "ejsCanvas (observer_callback c ob w) = Some c \<and> isReady (observer_callback c ob w)"
      using Cons.prems(2) by (simp add: observer_callback_def)
    then show ?thesis
      using fold_observer_callback_ready [of "observer_callback c ob w" c obs] by simp
  next
    case False
    then have same: "observer_callback c ob w = w"
      by (simp add: observer_callback_def)
    have "(c, k) \<in> set obs"
      using Cons.prems(1) False by auto
    then show ?thesis
      using Cons.IH [of w] Cons.prems(2) same by simp
  qed
qed

lemma switch_at_game_start:
  "onGameStart w = Some k \<Longrightarrow> 300 < width (canvases w c) \<Longrightarrow>
   outputCanvas (EJS_onGameStart (Some c) w) = Some c"
  by (simp add: EJS_onGameStart_def outputCanvas_def)

lemma pending_at_game_start:
  "onGameStart w = Some k \<Longrightarrow> width (canvases w c) \<le> 300 \<Longrightarrow>
   outputCanvas (EJS_onGameStart (Some c) w) = outputCanvas w \<and>
   (c, k) \<in> set (observers (EJS_onGameStart (Some c) w))"
  by (simp add: EJS_onGameStart_def outputCanvas_def split: option.splits)

lemma switch_at_resize:
  assumes "(c, k) \<in> set (observers w)" and "300 < wd"
  shows "outputCanvas (canvas_resized c wd ht w) = Some c"
proof -
  have "ejsCanvas (canvas_resized c wd ht w) = Some c"
    unfolding canvas_resized_def
    using fold_observer_callback_fires [OF assms(1), of
        "w\<lparr> canvases := (canvases w)(c := \<lparr> width = wd, height = ht \<rparr>) \<rparr>"] assms(2)
    by simp
  then show ?thesis
    by (simp add: outputCanvas_def)
qed

lemma observer_callback_quiet:
  "\<not> (fst ob = c \<and> 300 < width (canvases w c)) \<Longrightarrow> observer_callback c ob w = w"
  by (auto simp: observer_callback_def)

lemma fold_observer_callback_quiet:
  "width (canvases w c) \<le> 300 \<Longrightarrow> fold (observer_callback c) obs w = w"
  by (induction obs) (simp_all add: observer_callback_def)

lemma small_resize_keeps:
  "wd \<le> 300 \<Longrightarrow>
   canvas_resized c wd ht w = w\<lparr> canvases := (canvases w)(c := \<lparr> width = wd, height = ht \<rparr>) \<rparr>"
  by (simp add: canvas_resized_def fold_observer_callback_quiet)

lemma small_resize_outputCanvas:
  "wd \<le> 300 \<Longrightarrow> outputCanvas (canvas_resized c wd ht w) = outputCanvas w"
  by (simp add: small_resize_keeps outputCanvas_def split: option.splits)

text \<open>An observer stays connected while its own canvas is not sized past 300.\<close>

lemma observer_callback_other:
  "c' \<noteq> c \<Longrightarrow> (c, k) \<in> set (observers w) \<Longrightarrow>
   (c, k) \<in> set (observers (observer_callback c' ob w))"
  by (cases ob) (auto simp: observer_callback_def markReady_def resolve_def)

lemma fold_observer_callback_other:
  "c' \<noteq> c \<Longrightarrow> (c, k) \<in> set (observers w) \<Longrightarrow>
   (c, k) \<in> set (observers (fold (observer_callback c') obs w))"
  by (induction obs arbitrary: w) (simp_all add: observer_callback_other)

lemma fold_tick_observers [simp]:
  "observers (fold (\<lambda>i. tick now) q w) = observers w"
  by (induction q arbitrary: w) simp_all

lemma observer_stays_step:
  assumes "(c, k) \<in> set (observers w)" and "\<not> sizes_past c e"
  shows "(c, k) \<in> set (observers (step e w))"
proof (cases e)
  case Init
  then show ?thesis using assms by (simp add: init_def)
next
  case LoadROM
  then show ?thesis using assms by (simp add: loadROM_def)
next
  case (LoaderError j)
  then show ?thesis using assms by (simp add: loader_error_def reject_def)
next
  case (GameStart ec)
  then show ?thesis
    using assms by (auto simp: EJS_onGameStart_def markReady_def resolve_def split: option.splits)
next
  case (Resize c' wd ht)
  show ?thesis
  proof (cases "c' = c")
    case True
    then have "wd \<le> 300"
      using assms(2) Resize by simp
    then show ?thesis
      using assms(1) unfolding Resize by (simp add: small_resize_keeps)
  next
    case False
    then show ?thesis
      using assms(1) unfolding Resize
      by (simp add: canvas_resized_def fold_observer_callback_other)
  qed
next
  case (Start t0 t1)
  then show ?thesis using assms by (simp add: start_def)
next
  case Stop
  then show ?thesis
    using assms by (simp add: stop_def cancelAnimationFrame_def split: option.splits)
next
  case (Frame now)
  then show ?thesis using assms by (simp add: animation_frame_def)
qed

lemma observer_stays_run:
  "(c, k) \<in> set (observers w) \<Longrightarrow> \<forall>e\<in>set es. \<not> sizes_past c e \<Longrightarrow>
   (c, k) \<in> set (observers (run es w))"
proof (induction es arbitrary: w)
  case Nil
  then show ?case by (simp add: run_def)
next
  case (Cons e es)
  have "(c, k) \<in> set (observers (step e w))"
    using Cons.prems observer_stays_step [of c k w e] by simp
  then have "(c, k) \<in> set (observers (run es (step e w)))"
    using Cons.IH [of "step e w"] Cons.prems by simp
  then show ?case
    by (simp add: run_def)
qed

lemma switch_after_pending:
  assumes "onGameStart w = Some k" and "width (canvases w c) \<le> 300"
    and "\<forall>e\<in>set es. \<not> sizes_past c e" and "300 < wd"
  shows "outputCanvas (canvas_resized c wd ht (run es (EJS_onGameStart (Some c) w))) = Some c"
proof -
  have "(c, k) \<in> set (observers (EJS_onGameStart (Some c) w))"
    using pending_at_game_start [OF assms(1,2)] by simp
  then have "(c, k) \<in> set (observers (run es (EJS_onGameStart (Some c) w)))"
    using assms(3) by (rule observer_stays_run)
  then show ?thesis
    using assms(4) by (rule switch_at_resize)
qed

text \<open>
  C2 (amended). After construction \<open>outputCanvas\<close> returns the 384 by 224 placeholder, and
  it never returns \<open>null\<close> afterwards. A game start whose canvas reports a width of at most
  300, and a sizing of a canvas to a width of at most 300, leave its result as it was;
  whenever its result changes, other than by \<open>loadROM\<close>, the new result is a canvas whose
  reported width exceeds 300. It switches to the real surface when the game starts with a
  canvas wider than 300, and when a canvas under observation is sized past 300: after a game
  start at a width of at most 300 and any events that do not size that canvas past 300, the
  sizing past 300 makes \<open>outputCanvas\<close> that canvas. Once a real surface is bound, every
  read returns a real surface until \<open>loadROM\<close> is called again; \<open>loadROM\<close> makes it the
  placeholder again.
\<close>

theorem outputCanvas_lifecycle:
  "outputCanvas (main_js True p) = Some p \<and>
   canvases (main_js True p) p = \<lparr> width = 384, height = 224 \<rparr> \<and>
   outputCanvas (run es (main_js True p)) \<noteq> None \<and>
   (outputCanvas (step e w) = outputCanvas w \<or> e = LoadROM \<or>
    (\<exists>c. outputCanvas (step e w) = Some c \<and> 300 < width (canvases (step e w) c))) \<and>
   (onGameStart w = Some k \<and> width (canvases w c) \<le> 300 \<longrightarrow>
      outputCanvas (EJS_onGameStart (Some c) w) = outputCanvas w) \<and>
   (wd \<le> 300 \<longrightarrow> outputCanvas (canvas_resized c wd ht w) = outputCanvas w) \<and>
   (onGameStart w = Some k \<and> 300 < width (canvases w c) \<longrightarrow>
      outputCanvas (EJS_onGameStart (Some c) w) = Some c) \<and>
   ((c, k) \<in> set (observers w) \<and> 300 < wd \<longrightarrow>
      outputCanvas (canvas_resized c wd ht w) = Some c) \<and>
   (onGameStart w = Some k \<and> width (canvases w c) \<le> 300 \<and>
    (\<forall>e\<in>set es. \<not> sizes_past c e) \<and> 300 < wd \<longrightarrow>
      outputCanvas (canvas_resized c wd ht (run es (EJS_onGameStart (Some c) w))) = Some c) \<and>
   (ejsCanvas w \<noteq> None \<and> LoadROM \<notin> set es \<longrightarrow>
      outputCanvas (run es w) = ejsCanvas (run es w) \<and> ejsCanvas (run es w) \<noteq> None) \<and>
   outputCanvas (loadROM w) = placeholderCanvas w"
proof (intro conjI impI)
  show "outputCanvas (main_js True p) = Some p"
    by (simp add: outputCanvas_def main_js_fields)
  show "canvases (main_js True p) p = \<lparr> width = 384, height = 224 \<rparr>"
    by (simp add: main_js_fields)
  show "outputCanvas (run es (main_js True p)) \<noteq> None"
    by (rule outputCanvas_not_None) (simp add: main_js_fields)
  show "outputCanvas (step e w) = outputCanvas w \<or> e = LoadROM \<or>
    (\<exists>c. outputCanvas (step e w) = Some c \<and> 300 < width (canvases (step e w) c))"
    by (rule outputCanvas_step)
  show "outputCanvas (loadROM w) = placeholderCanvas w"
    by (simp add: outputCanvas_def)
next
  assume "onGameStart w = Some k \<and> width (canvases w c) \<le> 300"
  then show "outputCanvas (EJS_onGameStart (Some c) w) = outputCanvas w"
    using pending_at_game_start [of w k c] by simp
next
  assume "wd \<le> 300"
  then show "outputCanvas (canvas_resized c wd ht w) = outputCanvas w"
    by (rule small_resize_outputCanvas)
next
  assume "onGameStart w = Some k \<and> 300 < width (canvases w c)"
  then show "outputCanvas (EJS_onGameStart (Some c) w) = Some c"
    using switch_at_game_start [of w k c] by simp
next
  assume "(c, k) \<in> set (observers w) \<and> 300 < wd"
  then show "outputCanvas (canvas_resized c wd ht w) = Some c"
    using switch_at_resize [of c k w wd ht] by simp
next
  assume "onGameStart w = Some k \<and> width (canvases w c) \<le> 300 \<and>
    (\<forall>e\<in>set es. \<not> sizes_past c e) \<and> 300 < wd"
  then show "outputCanvas (canvas_resized c wd ht (run es (EJS_onGameStart (Some c) w))) = Some c"
    using switch_after_pending [of w k c es wd ht] by simp
next
  assume h: "ejsCanvas w \<noteq> None \<and> LoadROM \<notin> set es"
  then show k: "ejsCanvas (run es w) \<noteq> None"
    using ejsCanvas_run_kept by blast
  then show "outputCanvas (run es w) = ejsCanvas (run es w)"
    by (auto simp: outputCanvas_def split: option.splits)
qed

text \<open>
  C2, as stated, has every read after the switch return the real surface. Canvas 1 is
  384 wide at game start and is bound; a second \<open>loadROM\<close> puts the placeholder (canvas 0)
  back.
\<close>

theorem outputCanvas_lifecycle_counterexample:
  "outputCanvas (run [LoadROM, Resize 1 384 224, GameStart (Some 1)] (main_js True 0)) = Some 1 \<and>
   outputCanvas (run [LoadROM, Resize 1 384 224, GameStart (Some 1), LoadROM] (main_js True 0)) = Some 0"
  by (simp add: world_defs)

theorem outputCanvas_lifecycle_witness:
  "onGameStart (loadROM (main_js True 0)) = Some 0 \<and>
   width (canvases (loadROM (main_js True 0)) 1) \<le> 300 \<and>
   outputCanvas (EJS_onGameStart (Some 1) (loadROM (main_js True 0))) = Some 0 \<and>
   (200::nat) \<le> 300 \<and>
   outputCanvas (canvas_resized 1 200 100 (loadROM (main_js True 0))) = Some 0 \<and>
   \<not> sizes_past 1 (Frame 16) \<and> \<not> sizes_past 1 (Resize 1 300 224) \<and> \<not> sizes_past 1 LoadROM \<and>
   (300::nat) < 384 \<and>
   outputCanvas (canvas_resized 1 384 224
      (run [Frame 16, Resize 1 300 224, LoadROM]
         (EJS_onGameStart (Some 1) (loadROM (main_js True 0))))) = Some 1 \<and>
   300 < width (canvases (canvas_resized 2 320 240 (loadROM (main_js True 0))) 2) \<and>
   outputCanvas (EJS_onGameStart (Some 2)
      (canvas_resized 2 320 240 (loadROM (main_js True 0)))) = Some 2 \<and>
   (1, 0) \<in> set (observers (EJS_onGameStart (Some 1) (loadROM (main_js True 0)))) \<and>
   outputCanvas (canvas_resized 1 384 224
      (EJS_onGameStart (Some 1) (loadROM (main_js True 0)))) = Some 1 \<and>
   ejsCanvas (EJS_onGameStart (Some 2)
      (canvas_resized 2 320 240 (loadROM (main_js True 0)))) \<noteq> None \<and>
   LoadROM \<noteq> Frame 16 \<and> LoadROM \<noteq> Resize 2 200 100 \<and>
   ejsCanvas (run [Frame 16, Resize 2 200 100] (EJS_onGameStart (Some 2)
      (canvas_resized 2 320 240 (loadROM (main_js True 0))))) \<noteq> None"
proof -
  let ?l = "loadROM (main_js True 0)"
  let ?g = "EJS_onGameStart (Some 1) ?l"
  let ?b = "EJS_onGameStart (Some 2) (canvas_resized 2 320 240 ?l)"
  have l: "onGameStart ?l = Some 0" "width (canvases ?l 1) \<le> 300" "outputCanvas ?l = Some 0"
    by (simp_all add: world_defs)
  have g: "(1, 0) \<in> set (observers ?g)"
    by (simp add: world_defs)
  have b: "onGameStart (canvas_resized 2 320 240 ?l) = Some 0"
    "300 < width (canvases (canvas_resized 2 320 240 ?l) 2)"
    by (simp_all add: world_defs)
  have b2: "ejsCanvas ?b \<noteq> None"
    by (simp add: world_defs)
  have i1: "outputCanvas ?g = Some 0"
    "outputCanvas (canvas_resized 1 200 100 ?l) = Some 0"
    "outputCanvas (canvas_resized 1 384 224 (run [Frame 16, Resize 1 300 224, LoadROM] ?g)) = Some 1"
    using outputCanvas_lifecycle [of 0 "[Frame 16, Resize 1 300 224, LoadROM]" LoadROM ?l 0 1 200 100]
      outputCanvas_lifecycle [of 0 "[Frame 16, Resize 1 300 224, LoadROM]" LoadROM ?l 0 1 384 224] l
    by simp_all
  have i2: "outputCanvas ?b = Some 2"
    using outputCanvas_lifecycle [of 0 "[]" LoadROM "canvas_resized 2 320 240 ?l" 0 2 384 224] b
    by simp
  have i3: "outputCanvas (canvas_resized 1 384 224 ?g) = Some 1"
    using outputCanvas_lifecycle [of 0 "[]" LoadROM ?g 0 1 384 224] g by simp
  have i4: "ejsCanvas (run [Frame 16, Resize 2 200 100] ?b) \<noteq> None"
    using outputCanvas_lifecycle [of 0 "[Frame 16, Resize 2 200 100]" LoadROM ?b 0 2 384 224] b2
    by simp
  show ?thesis
    using l g b b2 i1 i2 i3 i4 by simp
qed

subsection \<open>Rebinding the texture\<close>

lemma tick_swaps_idle:
  "\<not> isReady w \<Longrightarrow> swaps (tick now w) = swaps w"
  by (auto simp: tick_defs split: option.splits prod.splits if_splits)

lemma run_ticks_idle:
  "\<not> isReady w \<Longrightarrow>
   screenMesh (run_ticks ts w) = screenMesh w \<and> swaps (run_ticks ts w) = swaps w \<and>
   ejsCanvas (run_ticks ts w) = ejsCanvas w \<and> isReady (run_ticks ts w) = isReady w \<and>
   placeholderCanvas (run_ticks ts w) = placeholderCanvas w \<and>
   observers (run_ticks ts w) = observers w \<and> canvases (run_ticks ts w) = canvases w"
proof (induction ts arbitrary: w)
  case Nil
  then show ?case by (simp add: run_ticks_def)
next
  case (Cons t ts)
  have nr: "\<not> isReady (tick t w)"
    using Cons.prems by simp
  have "screenMesh (tick t w) = screenMesh w" and "swaps (tick t w) = swaps w"
    using Cons.prems tick_not_ready [of w t] tick_swaps_idle [of w t] by simp_all
  then show ?case
    using Cons.IH [OF nr] by (simp add: run_ticks_def)
qed

lemma tick_rebinds:
  assumes "isReady w" and "ejsCanvas w = Some c" and "screenMesh w = Some tex"
    and "tex_image tex \<noteq> Some c"
  shows "screenMesh (tick now w) = Some \<lparr> tex_image = Some c, tex_version = tex_version tex + 1 \<rparr>"
    and "swaps (tick now w) = swaps w @ [c]"
  using assms
  by (auto simp: tick_defs outputCanvas_def split: option.splits prod.splits if_splits)

lemma tick_bound:
  assumes "isReady w" and "ejsCanvas w = Some c" and "screenMesh w = Some tex"
    and "tex_image tex = Some c"
  shows "screenMesh (tick now w) = Some \<lparr> tex_image = Some c, tex_version = tex_version tex + 1 \<rparr>"
    and "swaps (tick now w) = swaps w"
  using assms
  by (auto simp: tick_defs outputCanvas_def split: option.splits prod.splits if_splits)

lemma run_ticks_bound:
  assumes "isReady w" and "ejsCanvas w = Some c" and "screenMesh w = Some tex"
    and "tex_image tex = Some c"
  shows "map_option tex_image (screenMesh (run_ticks ts w)) = Some (Some c) \<and>
         swaps (run_ticks ts w) = swaps w"
  using assms
proof (induction ts arbitrary: w tex)
  case Nil
  then show ?case by (simp add: run_ticks_def)
next
  case (Cons t ts)
  let ?tex = "\<lparr> tex_image = Some c, tex_version = tex_version tex + 1 \<rparr>"
  have a: "screenMesh (tick t w) = Some ?tex" and b: "swaps (tick t w) = swaps w"
    using Cons.prems tick_bound [of w c tex t] by simp_all
  have "map_option tex_image (screenMesh (run_ticks ts (tick t w))) = Some (Some c) \<and>
        swaps (run_ticks ts (tick t w)) = swaps (tick t w)"
    using Cons.IH [of "tick t w" ?tex] Cons.prems a by simp
  then show ?case
    using b by (simp add: run_ticks_def)
qed

text \<open>
  C7. A game start whose canvas still reports a width of at most 300 leaves the placeholder
  served and bound, over any number of ticks, with no rebind. When the canvas is then sized
  past 300, \<open>outputCanvas\<close> is that canvas, the next tick binds it to the texture, and after
  that tick and any number of further ticks exactly one rebind has been recorded.
\<close>

theorem single_rebind_after_resize:
  fixes w :: world and c p :: canvas and wd ht :: nat and ts1 ts2 :: "real list" and t :: real
  assumes "placeholderCanvas w = Some p" and "ejsCanvas w = None" and "\<not> isReady w"
    and "onGameStart w = Some k" and "screenMesh w = Some tex" and "tex_image tex = Some p"
    and "c \<noteq> p" and "width (canvases w c) \<le> 300" and "300 < wd"
  defines "pending \<equiv> run_ticks ts1 (EJS_onGameStart (Some c) w)"
  defines "resized \<equiv> canvas_resized c wd ht pending"
  shows "outputCanvas pending = Some p \<and>
         map_option tex_image (screenMesh pending) = Some (Some p) \<and>
         swaps pending = swaps w \<and>
         outputCanvas resized = Some c \<and>
         map_option tex_image (screenMesh (run_ticks (t # ts2) resized)) = Some (Some c) \<and>
         swaps (run_ticks (t # ts2) resized) = swaps w @ [c]"
proof -
  let ?g = "EJS_onGameStart (Some c) w"
  have g: "?g = w\<lparr> observers := observers w @ [(c, k)] \<rparr>"
    using assms(4,8) by (simp add: EJS_onGameStart_def)
  have gnr: "\<not> isReady ?g"
    using assms(3) by (simp add: g)
  have idle: "screenMesh pending = screenMesh ?g" "swaps pending = swaps ?g"
    "ejsCanvas pending = ejsCanvas ?g" "isReady pending = isReady ?g"
    "placeholderCanvas pending = placeholderCanvas ?g" "observers pending = observers ?g"
    using run_ticks_idle [OF gnr, of ts1] unfolding pending_def by simp_all
  have p1: "outputCanvas pending = Some p"
    using idle assms(1,2) by (simp add: outputCanvas_def g)
  have p2: "screenMesh pending = Some tex"
    using idle assms(5) by (simp add: g)
  have p3: "swaps pending = swaps w"
    using idle by (simp add: g)
  have ob: "(c, k) \<in> set (observers pending)"
    using idle by (simp add: g)
  have r: "ejsCanvas resized = Some c \<and> isReady resized"
    unfolding resized_def canvas_resized_def
    using fold_observer_callback_fires [OF ob, of
        "pending\<lparr> canvases := (canvases pending)(c := \<lparr> width = wd, height = ht \<rparr>) \<rparr>"]
      assms(9)
    by simp
  have r2: "screenMesh resized = Some tex" and r3: "swaps resized = swaps w"
    unfolding resized_def using p2 p3 by simp_all
  have ne: "tex_image tex \<noteq> Some c"
    using assms(6,7) by simp
  let ?tex = "\<lparr> tex_image = Some c, tex_version = tex_version tex + 1 \<rparr>"
  have t1: "screenMesh (tick t resized) = Some ?tex" and t2: "swaps (tick t resized) = swaps w @ [c]"
    using tick_rebinds [of resized c tex t] r r2 r3 ne by simp_all
  have "map_option tex_image (screenMesh (run_ticks ts2 (tick t resized))) = Some (Some c) \<and>
        swaps (run_ticks ts2 (tick t resized)) = swaps (tick t resized)"
    using run_ticks_bound [of "tick t resized" c ?tex ts2] r t1 by simp
  then have fin: "map_option tex_image (screenMesh (run_ticks (t # ts2) resized)) = Some (Some c)"
    "swaps (run_ticks (t # ts2) resized) = swaps w @ [c]"
    using t2 by (simp_all add: run_ticks_def)
  have r1: "outputCanvas resized = Some c"
    using r by (simp add: outputCanvas_def)
  show ?thesis
    using p1 p2 p3 r1 fin assms(6) by simp
qed

theorem single_rebind_after_resize_witness:
  "outputCanvas (run_ticks [16, 32] (EJS_onGameStart (Some 1) (loadROM (main_js True 0)))) = Some 0 \<and>
   swaps (run_ticks [16, 32] (EJS_onGameStart (Some 1) (loadROM (main_js True 0)))) = [] \<and>
   outputCanvas (canvas_resized 1 384 224
      (run_ticks [16, 32] (EJS_onGameStart (Some 1) (loadROM (main_js True 0))))) = Some 1 \<and>
   swaps (run_ticks [48, 64, 80] (canvas_resized 1 384 224
      (run_ticks [16, 32] (EJS_onGameStart (Some 1) (loadROM (main_js True 0)))))) = [1]"
proof -
  have h: "placeholderCanvas (loadROM (main_js True 0)) = Some 0"
    "ejsCanvas (loadROM (main_js True 0)) = None"
    "\<not> isReady (loadROM (main_js True 0))"
    "onGameStart (loadROM (main_js True 0)) = Some 0"
    "screenMesh (loadROM (main_js True 0)) = Some \<lparr> tex_image = Some 0, tex_version = 1 \<rparr>"
    "tex_image \<lparr> tex_image = Some 0, tex_version = 1 \<rparr> = Some 0"
    "(1::nat) \<noteq> 0"
    "width (canvases (loadROM (main_js True 0)) 1) \<le> 300"
    "(300::nat) < 384"
    "swaps (loadROM (main_js True 0)) = []"
    by (simp_all add: main_js_fields)
      (simp_all add: loadROM_def main_js_def EmulatorBridge_new_def page_loaded_def init_def
        default_canvas_def)
  show ?thesis
    using single_rebind_after_resize [OF h(1-9), of "[16, 32]" 224 48 "[64, 80]"] h(10)
    by simp
qed

end
